theory Spec2Isabelle
  imports Complex_Main
begin

section \<open>Python strings\<close>

text \<open>
  A Python \<open>str\<close> is modelled as a \<open>string\<close>, one \<open>char\<close> per code point; the model
  covers the code points below 256. The character classes are those of Python's
  \<open>str.isspace\<close> and \<open>str.isdigit\<close> on that range.
\<close>

definition py_isspace :: "char \<Rightarrow> bool" where
  "py_isspace c \<longleftrightarrow> c \<in> set [CHR 0x09, CHR 0x0A, CHR 0x0B, CHR 0x0C, CHR 0x0D,
     CHR 0x1C, CHR 0x1D, CHR 0x1E, CHR 0x1F, CHR 0x20, CHR 0x85, CHR 0xA0]"

definition py_isdigit_char :: "char \<Rightarrow> bool" where
  "py_isdigit_char c \<longleftrightarrow> c \<in> set (''0123456789'' @ [CHR 0xB2, CHR 0xB3, CHR 0xB9])"

text \<open>\<open>s.isdigit()\<close>: every character is a digit and there is at least one.\<close>

definition py_isdigit :: "string \<Rightarrow> bool" where
  "py_isdigit s \<longleftrightarrow> s \<noteq> [] \<and> list_all py_isdigit_char s"

text \<open>\<open>s.strip()\<close> and \<open>s.rstrip(".")\<close>.\<close>

definition py_strip :: "string \<Rightarrow> string" where
  "py_strip s = rev (dropWhile py_isspace (rev (dropWhile py_isspace s)))"

definition py_rstrip_dot :: "string \<Rightarrow> string" where
  "py_rstrip_dot s = rev (dropWhile (\<lambda>c. c = CHR ''.'') (rev s))"

text \<open>\<open>s.split(sep)\<close> for a separator of one character; \<open>"".split(sep)\<close> is \<open>[""]\<close>.\<close>

fun py_split :: "char \<Rightarrow> string \<Rightarrow> string list" where
  "py_split sep [] = [[]]"
| "py_split sep (c # cs) =
     (if c = sep then [] # py_split sep cs
      else (case py_split sep cs of
              [] \<Rightarrow> [[c]]
            | w # ws \<Rightarrow> (c # w) # ws))"

text \<open>\<open>sep.join(xs)\<close>.\<close>

fun py_join :: "string \<Rightarrow> string list \<Rightarrow> string" where
  "py_join sep [] = []"
| "py_join sep [x] = x"
| "py_join sep (x # y # ys) = x @ sep @ py_join sep (y # ys)"

text \<open>\<open>str(n)\<close> for a non-negative integer, and the format \<open>{n:0wd}\<close> for any integer:
  the sign counts in the width and the zeros come after it.\<close>

definition digit_char :: "nat \<Rightarrow> char" where
  "digit_char d = ''0123456789'' ! d"

function str_nat :: "nat \<Rightarrow> string" where
  "str_nat n = (if n < 10 then [digit_char n] else str_nat (n div 10) @ [digit_char (n mod 10)])"
  by pat_completeness auto
termination
  by (relation "measure id") auto

declare str_nat.simps [simp del]

definition py_fmt_0d :: "nat \<Rightarrow> int \<Rightarrow> string" where
  "py_fmt_0d w n =
     (let ds = str_nat (nat \<bar>n\<bar>)
      in if n < 0 then CHR ''-'' # replicate (w - 1 - length ds) CHR ''0'' @ ds
         else replicate (w - length ds) CHR ''0'' @ ds)"

section \<open>Caption serializer (pipeline.py)\<close>

text \<open>
  A Python float is modelled by the rational it denotes. The rounding of the float product
  \<open>float(seconds) * 1000\<close> is not fixed by the model: the multiplication is the parameter
  \<open>fmul\<close>, and every result below holds for each choice of it. \<open>int(x)\<close> truncates towards
  zero; \<open>//\<close> and \<open>%\<close> are floor division and its remainder, as \<open>div\<close> and \<open>mod\<close> on
  \<open>int\<close> are. \<open>seconds or 0\<close> leaves a float unchanged in value.
\<close>

type_synonym pyfloat = rat

definition py_int :: "pyfloat \<Rightarrow> int" where
  "py_int x = (if 0 \<le> x then \<lfloor>x\<rfloor> else \<lceil>x\<rceil>)"

definition srt_time :: "(pyfloat \<Rightarrow> pyfloat \<Rightarrow> pyfloat) \<Rightarrow> pyfloat \<Rightarrow> string" where
  "srt_time fmul seconds =
     (let ms = py_int (fmul seconds 1000)
      in py_fmt_0d 2 (ms div 3600000) @ '':'' @
         py_fmt_0d 2 ((ms mod 3600000) div 60000) @ '':'' @
         py_fmt_0d 2 ((ms mod 60000) div 1000) @ '','' @
         py_fmt_0d 3 (ms mod 1000))"

text \<open>
  A Whisper segment is a dictionary; the keys the pipeline reads and writes are \<open>start\<close>,
  \<open>end\<close>, \<open>text\<close> and \<open>original_text\<close> (absent until the translation step sets it).
\<close>

record segment =
  seg_start :: pyfloat
  seg_end :: pyfloat
  seg_text :: string
  seg_original_text :: "string option"

text \<open>One \<open>f.write\<close> of \<open>_write_srt\<close>: the block of segment \<open>seg\<close> under the number \<open>i\<close>.\<close>

definition srt_block :: "(pyfloat \<Rightarrow> pyfloat \<Rightarrow> pyfloat) \<Rightarrow> nat \<Rightarrow> segment \<Rightarrow> string" where
  "srt_block fmul i seg =
     str_nat i @ ''\<newline>'' @ srt_time fmul (seg_start seg) @ '' --> '' @ srt_time fmul (seg_end seg)
       @ ''\<newline>'' @ py_strip (seg_text seg) @ ''\<newline>\<newline>''"

text \<open>The loop \<open>for i, seg in enumerate(segments, 1)\<close>, from the counter \<open>i\<close>; the result is
  the content written to the file.\<close>

fun write_blocks :: "(pyfloat \<Rightarrow> pyfloat \<Rightarrow> pyfloat) \<Rightarrow> nat \<Rightarrow> segment list \<Rightarrow> string" where
  "write_blocks fmul i [] = []"
| "write_blocks fmul i (seg # segs) = srt_block fmul i seg @ write_blocks fmul (Suc i) segs"

definition write_srt :: "(pyfloat \<Rightarrow> pyfloat \<Rightarrow> pyfloat) \<Rightarrow> segment list \<Rightarrow> string" where
  "write_srt fmul segments = write_blocks fmul 1 segments"

section \<open>Paths (pathlib, POSIX flavour)\<close>

text \<open>
  A pure path is its root (empty, \<open>/\<close> or \<open>//\<close>) and its components. \<open>Path(s)\<close> drops
  empty and \<open>.\<close> components; \<open>p / s\<close> is \<open>Path(s)\<close> when \<open>s\<close> is absolute and appends the
  components of \<open>s\<close> to \<open>p\<close> otherwise. \<open>name\<close> is the last component, and \<open>stem\<close> cuts the
  last suffix from it: the text from the last dot on, when that dot is neither the first nor
  the last character of the name (pathlib up to Python 3.13).
\<close>

record path =
  p_root :: string
  p_parts :: "string list"

definition Path :: "string \<Rightarrow> path" where
  "Path s =
     \<lparr>p_root = (if take 2 s = ''//'' \<and> take 3 s \<noteq> ''///'' then ''//''
              else if take 1 s = ''/'' then ''/'' else []),
      p_parts = filter (\<lambda>c. c \<noteq> [] \<and> c \<noteq> ''.'') (py_split CHR ''/'' s)\<rparr>"

definition path_div :: "path \<Rightarrow> string \<Rightarrow> path" where
  "path_div p s =
     (let q = Path s in if p_root q \<noteq> [] then q else p\<lparr>p_parts := p_parts p @ p_parts q\<rparr>)"

definition path_name :: "path \<Rightarrow> string" where
  "path_name p = (if p_parts p = [] then [] else last (p_parts p))"

definition name_suffix :: "string \<Rightarrow> string" where
  "name_suffix nm =
     (if CHR ''.'' \<in> set nm then
        (let ext = rev (takeWhile (\<lambda>c. c \<noteq> CHR ''.'') (rev nm));
             i = length nm - length ext - 1
         in if 0 < i \<and> i < length nm - 1 then drop i nm else [])
      else [])"

definition path_suffix :: "path \<Rightarrow> string" where
  "path_suffix p = name_suffix (path_name p)"

definition path_stem :: "path \<Rightarrow> string" where
  "path_stem p =
     (let nm = path_name p in take (length nm - length (name_suffix nm)) nm)"

section \<open>Transcription stage (pipeline.py, transcribe_video)\<close>

text \<open>
  Exceptions are values. An exception of a collaborator is known by its message only; the
  pipeline's own failures are \<open>RuntimeError\<close>s.
\<close>

datatype error = RuntimeError string | KeyError string | OtherError string

fun str_error :: "error \<Rightarrow> string" where
  "str_error (RuntimeError m) = m"
| "str_error (KeyError k) = CHR 0x27 # k @ [CHR 0x27]"
| "str_error (OtherError m) = m"

text \<open>
  The translation collaborator: what the \<open>k\<close>-th call of \<open>generate_content\<close> answers to a
  prompt. \<open>Text t\<close> is a response whose \<open>text\<close> is \<open>t\<close> (a response with no text is
  \<open>Text []\<close>); \<open>Raises m\<close> is a call, or a read of \<open>resp.text\<close>, that raises with the
  message \<open>m\<close>.
\<close>

datatype response = Text string | Raises string

type_synonym collaborator = "nat \<Rightarrow> string \<Rightarrow> response"

definition LANGUAGE_NAMES :: "(string \<times> string) list" where
  "LANGUAGE_NAMES =
     [(''en'', ''English''), (''ur'', ''Urdu''), (''hi'', ''Hindi''), (''ar'', ''Arabic''),
      (''fr'', ''French''), (''es'', ''Spanish''), (''de'', ''German''), (''it'', ''Italian''),
      (''pt'', ''Portuguese''), (''ru'', ''Russian''), (''ja'', ''Japanese''),
      (''ko'', ''Korean''), (''zh'', ''Chinese'')]"

definition target_lang_name :: "string \<Rightarrow> string" where
  "target_lang_name target_lang =
     (case map_of LANGUAGE_NAMES target_lang of Some nm \<Rightarrow> nm | None \<Rightarrow> target_lang)"

definition chunk_size :: nat where
  "chunk_size = 80"

definition numbered :: "string list \<Rightarrow> string" where
  "numbered chunk =
     py_join ''\<newline>'' (map (\<lambda>(idx, t). str_nat (idx + 1) @ ''. '' @ t) (enumerate 0 chunk))"

definition prompt :: "string \<Rightarrow> string list \<Rightarrow> string" where
  "prompt target_lang chunk =
     ''Translate the following subtitles into '' @ target_lang_name target_lang @ ''.\<newline>'' @
     ''Keep the original numbering, one line per subtitle, and output nothing else.\<newline>'' @
     ''Ensure the translation is natural and contextually appropriate.\<newline>\<newline>'' @
     numbered chunk"

definition simple_prompt :: "string \<Rightarrow> string list \<Rightarrow> string" where
  "simple_prompt target_lang chunk =
     ''Translate these Japanese subtitles to '' @ target_lang_name target_lang @ '':\<newline>'' @
     numbered chunk"

text \<open>\<open>[ln.strip() for ln in resp.text.split("\n") if ln.strip()]\<close>\<close>

definition response_lines :: "string \<Rightarrow> string list" where
  "response_lines txt =
     map py_strip (filter (\<lambda>line. py_strip line \<noteq> []) (py_split CHR ''\<newline>'' txt))"

text \<open>
  The body of the \<open>try\<close> of one chunk, from the call counter \<open>k\<close>: the lines of the chunk's
  response and the new counter, or the \<open>RuntimeError\<close> raised when the retry fails too.
\<close>

definition fallback_lines ::
  "collaborator \<Rightarrow> string \<Rightarrow> nat \<Rightarrow> string list \<Rightarrow> string \<Rightarrow> error + string list \<times> nat" where
  "fallback_lines gen target_lang k chunk e =
     (case gen k (simple_prompt target_lang chunk) of
        Text t \<Rightarrow>
          if t \<noteq> [] then Inr (response_lines t, Suc k)
          else Inl (RuntimeError (''Gemini translation failed: '' @ e))
      | Raises m \<Rightarrow> Inl (RuntimeError (''Gemini translation failed: '' @ e)))"

definition chunk_lines ::
  "collaborator \<Rightarrow> string \<Rightarrow> nat \<Rightarrow> string list \<Rightarrow> error + string list \<times> nat" where
  "chunk_lines gen target_lang k chunk =
     (case gen k (prompt target_lang chunk) of
        Text t \<Rightarrow>
          if t \<noteq> [] then Inr (response_lines t, Suc k)
          else fallback_lines gen target_lang (Suc k) chunk ''Empty response from Gemini''
      | Raises m \<Rightarrow> fallback_lines gen target_lang (Suc k) chunk m)"

text \<open>The numbering-stripping step on one line:
  \<open>if ln.split(" ")[0].rstrip(".").isdigit(): " ".join(ln.split(" ")[1:]) else ln\<close>.
  \<open>split\<close> never returns the empty list.\<close>

definition strip_numbering :: "string \<Rightarrow> string" where
  "strip_numbering line =
     (case py_split CHR '' '' line of
        [] \<Rightarrow> line
      | tok # rest \<Rightarrow> if py_isdigit (py_rstrip_dot tok) then py_join '' '' rest else line)"

text \<open>The loop \<open>for start in range(0, len(texts), chunk_size)\<close>, from \<open>start\<close>, with the
  lines collected so far in \<open>cleaned_all\<close>.\<close>

function translate_loop ::
  "collaborator \<Rightarrow> string \<Rightarrow> string list \<Rightarrow> nat \<Rightarrow> nat \<Rightarrow> string list
     \<Rightarrow> error + string list \<times> nat" where
  "translate_loop gen target_lang texts start k cleaned_all =
     (if start < length texts then
        (case chunk_lines gen target_lang k (take chunk_size (drop start texts)) of
           Inl e \<Rightarrow> Inl e
         | Inr (lines, k') \<Rightarrow>
             translate_loop gen target_lang texts (start + chunk_size) k'
               (cleaned_all @ map strip_numbering lines))
      else Inr (cleaned_all, k))"
  by pat_completeness auto
termination
  by (relation "measure (\<lambda>(gen, target_lang, texts, start, k, cleaned_all). length texts - start)")
     (auto simp: chunk_size_def)

declare translate_loop.simps [simp del]

text \<open>\<open>while len(cleaned_all) < len(segments): cleaned_all.append(segments[len(cleaned_all)]["text"])\<close>\<close>

function pad_cleaned :: "segment list \<Rightarrow> string list \<Rightarrow> string list" where
  "pad_cleaned segments cleaned_all =
     (if length cleaned_all < length segments
      then pad_cleaned segments (cleaned_all @ [seg_text (segments ! length cleaned_all)])
      else cleaned_all)"
  by pat_completeness auto
termination
  by (relation "measure (\<lambda>(segments, cleaned_all). length segments - length cleaned_all)") auto

declare pad_cleaned.simps [simp del]

text \<open>\<open>for seg, tr in zip(segments, cleaned_all): seg["text"] = tr\<close>: \<open>zip\<close> stops at the
  shorter list, and the segments it does not reach stay as they are.\<close>

fun assign_texts :: "segment list \<Rightarrow> string list \<Rightarrow> segment list" where
  "assign_texts (seg # segs) (tr # trs) = seg\<lparr>seg_text := tr\<rparr> # assign_texts segs trs"
| "assign_texts segs trs = segs"

text \<open>\<open>for seg in segments: seg["original_text"] = seg["text"]\<close>\<close>

definition with_original :: "segment list \<Rightarrow> segment list" where
  "with_original segments =
     map (\<lambda>seg. seg\<lparr>seg_original_text := Some (seg_text seg)\<rparr>) segments"

text \<open>
  The state the stage works on: the number of calls made to the translation collaborator
  and the text files written. The speech recogniser's outcome \<open>asr\<close> is the value of
  \<open>model.transcribe(...)["segments"]\<close>, or the exception it raises.
\<close>

record env =
  gemini_calls :: nat
  files :: "path \<rightharpoonup> string"

definition srt_path_of :: "path \<Rightarrow> path \<Rightarrow> string \<Rightarrow> path" where
  "srt_path_of video_path output_dir lang_suffix =
     path_div output_dir (path_stem video_path @ ''.'' @ lang_suffix @ ''.srt'')"

definition transcribe_video ::
  "(pyfloat \<Rightarrow> pyfloat \<Rightarrow> pyfloat) \<Rightarrow> error + segment list \<Rightarrow> collaborator \<Rightarrow>
     path \<Rightarrow> path \<Rightarrow> string \<Rightarrow> env \<Rightarrow> error + (segment list \<times> path) \<times> env" where
  "transcribe_video fmul asr gen video_path output_dir target_lang e =
     (case asr of
        Inl err \<Rightarrow> Inl err
      | Inr segments \<Rightarrow>
          if segments = [] \<or> \<not> list_ex (\<lambda>seg. py_strip (seg_text seg) \<noteq> []) segments then
            (let srt_path = srt_path_of video_path output_dir target_lang
             in Inr ((segments, srt_path),
                     e\<lparr>files := (files e)(srt_path \<mapsto> write_srt fmul segments)\<rparr>))
          else
            (let texts = map seg_text segments;
                 segments1 = with_original segments
             in case translate_loop gen target_lang texts 0 (gemini_calls e) [] of
                  Inl err \<Rightarrow> Inl err
                | Inr (cleaned_all, k) \<Rightarrow>
                    (let cleaned_all1 =
                           (if length cleaned_all \<noteq> length segments1
                            then pad_cleaned segments1 cleaned_all else cleaned_all);
                         segments2 = assign_texts segments1 cleaned_all1;
                         srt_path = srt_path_of video_path output_dir target_lang
                     in Inr ((segments2, srt_path),
                             \<lparr>gemini_calls = k,
                              files = (files e)(srt_path \<mapsto> write_srt fmul segments2)\<rparr>))))"

section \<open>Compositing stage (pipeline.py, burn_subtitles)\<close>

text \<open>
  The encoder collaborator's outcome: it succeeds, it fails with \<open>ffmpeg.Error\<close> (whose
  captured \<open>stderr\<close>, decoded, and whose own message \<open>str(e)\<close> are given), or the invocation
  raises another exception.
\<close>

datatype encoder_outcome = EncOk | EncError string string | EncRaises error

definition burn_subtitles :: "encoder_outcome \<Rightarrow> path \<Rightarrow> path \<Rightarrow> path \<Rightarrow> string \<Rightarrow> error + path" where
  "burn_subtitles enc video_path srt_path output_dir target_lang =
     (let out_file = path_div output_dir (path_stem video_path @ ''.'' @ target_lang @ ''_burned.mp4'')
      in case enc of
           EncOk \<Rightarrow> Inr out_file
         | EncError stderr msg \<Rightarrow>
             Inl (RuntimeError (''ffmpeg error:\<newline>'' @ (if stderr \<noteq> [] then stderr else msg) @ ''\<newline>''))
         | EncRaises e \<Rightarrow> Inl e)"

section \<open>Job registry, upload and background task (main.py)\<close>

text \<open>
  A job is the dictionary stored in \<open>JOBS\<close>: the keys \<open>status\<close>, \<open>transcript\<close>, \<open>output\<close>
  (\<open>None\<close> until the burn succeeds) and \<open>error\<close> (absent until the burn fails).
\<close>

record job =
  j_status :: string
  j_transcript :: string
  j_output :: "string option"
  j_error :: "string option"

text \<open>A scheduled call of \<open>_background_burn\<close> with its arguments.\<close>

record task =
  t_job_id :: string
  t_video_path :: path
  t_srt_path :: path
  t_target_lang :: string

record server =
  JOBS :: "string \<rightharpoonup> job"
  background_tasks :: "task list"
  world :: env

definition STORAGE_DIR :: path where
  "STORAGE_DIR = Path ''storage''"

definition init_server :: server where
  "init_server =
     \<lparr>JOBS = Map.empty, background_tasks = [], world = \<lparr>gemini_calls = 0, files = Map.empty\<rparr>\<rparr>"

datatype 'a http = Ok 'a | HTTPException nat string

text \<open>
  \<open>_background_burn\<close>: both branches index \<open>JOBS[job_id]\<close>; for an unknown key the
  \<open>KeyError\<close> of the first branch is caught and the handler raises it again.
\<close>

definition background_burn ::
  "encoder_outcome \<Rightarrow> string \<Rightarrow> path \<Rightarrow> path \<Rightarrow> string \<Rightarrow> (string \<rightharpoonup> job)
     \<Rightarrow> error + (string \<rightharpoonup> job)" where
  "background_burn enc job_id video_path srt_path target_lang jobs =
     (case burn_subtitles enc video_path srt_path STORAGE_DIR target_lang of
        Inr out_path \<Rightarrow>
          (case jobs job_id of
             Some j \<Rightarrow> Inr (jobs(job_id \<mapsto> j\<lparr>j_status := ''done'', j_output := Some (path_name out_path)\<rparr>))
           | None \<Rightarrow> Inl (KeyError job_id))
      | Inl e \<Rightarrow>
          (case jobs job_id of
             Some j \<Rightarrow> Inr (jobs(job_id \<mapsto> j\<lparr>j_status := ''error'', j_error := Some (str_error e)\<rparr>))
           | None \<Rightarrow> Inl (KeyError job_id)))"

text \<open>
  \<open>upload_video\<close>: \<open>uuid\<close> is the value of \<open>str(uuid4())\<close>. The response and the server
  after the request; the copy of the uploaded bytes to \<open>input_path\<close> is not part of the
  state.
\<close>

definition upload_video ::
  "(pyfloat \<Rightarrow> pyfloat \<Rightarrow> pyfloat) \<Rightarrow> string option \<Rightarrow> string \<Rightarrow> string \<Rightarrow> string \<Rightarrow>
     error + segment list \<Rightarrow> collaborator \<Rightarrow> server \<Rightarrow> string http \<times> server" where
  "upload_video fmul content_type filename lang uuid asr gen s =
     (if content_type = None \<or> content_type = Some [] \<or> take 5 (the content_type) \<noteq> ''video''
      then (HTTPException 400 ''Please upload a video file'', s)
      else
        (let job_id = uuid;
             input_path = path_div STORAGE_DIR (job_id @ ''_'' @ filename)
         in case transcribe_video fmul asr gen input_path STORAGE_DIR lang (world s) of
              Inl e \<Rightarrow> (HTTPException 500 (''Transcription failed: '' @ str_error e), s)
            | Inr ((segments, srt_path), w) \<Rightarrow>
                (let transcript_text = py_join ''\<newline>'' (map seg_text segments)
                 in (Ok job_id,
                     \<lparr>JOBS = (JOBS s)(job_id \<mapsto>
                         \<lparr>j_status = ''burning'', j_transcript = transcript_text,
                          j_output = None, j_error = None\<rparr>),
                      background_tasks = background_tasks s @
                        [\<lparr>t_job_id = job_id, t_video_path = input_path,
                          t_srt_path = srt_path, t_target_lang = lang\<rparr>],
                      world = w\<rparr>))))"

definition job_status :: "string \<Rightarrow> server \<Rightarrow> job http" where
  "job_status job_id s =
     (case JOBS s job_id of None \<Rightarrow> HTTPException 404 ''job not found'' | Some j \<Rightarrow> Ok j)"

text \<open>
  What can happen to the server: an upload request, the run of the scheduled task of a job
  (with the outcome its encoder invocation has), and a status query, which changes nothing.
  The tasks of different requests may run in any order.
\<close>

datatype event =
    Upload "string option" string string string "error + segment list" collaborator
  | Burn string encoder_outcome
  | Status string

fun step :: "(pyfloat \<Rightarrow> pyfloat \<Rightarrow> pyfloat) \<Rightarrow> server \<Rightarrow> event \<Rightarrow> server" where
  "step fmul s (Upload content_type filename lang uuid asr gen) =
     snd (upload_video fmul content_type filename lang uuid asr gen s)"
| "step fmul s (Burn job_id enc) =
     (case find (\<lambda>t. t_job_id t = job_id) (background_tasks s) of
        None \<Rightarrow> s
      | Some t \<Rightarrow>
          (case background_burn enc (t_job_id t) (t_video_path t) (t_srt_path t)
                  (t_target_lang t) (JOBS s) of
             Inl e \<Rightarrow> s\<lparr>background_tasks := remove1 t (background_tasks s)\<rparr>
           | Inr jobs \<Rightarrow> s\<lparr>JOBS := jobs, background_tasks := remove1 t (background_tasks s)\<rparr>))"
| "step fmul s (Status job_id) = s"

fun upload_ids :: "event list \<Rightarrow> string list" where
  "upload_ids [] = []"
| "upload_ids (Upload content_type filename lang uuid asr gen # evs) = uuid # upload_ids evs"
| "upload_ids (ev # evs) = upload_ids evs"

text \<open>The status a query for \<open>job_id\<close> reads (\<open>None\<close>: not found) before the first event
  and after each one.\<close>

definition read_status :: "string \<Rightarrow> server \<Rightarrow> string option" where
  "read_status job_id s =
     (case job_status job_id s of Ok j \<Rightarrow> Some (j_status j) | HTTPException code msg \<Rightarrow> None)"

fun status_trace ::
  "(pyfloat \<Rightarrow> pyfloat \<Rightarrow> pyfloat) \<Rightarrow> string \<Rightarrow> server \<Rightarrow> event list \<Rightarrow> string option list" where
  "status_trace fmul job_id s [] = [read_status job_id s]"
| "status_trace fmul job_id s (ev # evs) =
     read_status job_id s # status_trace fmul job_id (step fmul s ev) evs"

section \<open>The specification's notions\<close>

text \<open>
  The timestamp the specification describes, from a millisecond count: hours, minutes and
  seconds padded with zeros to two digits, milliseconds to three, and an hours field that
  grows beyond two digits only when the count needs it.
\<close>

definition zero_pad :: "nat \<Rightarrow> nat \<Rightarrow> string" where
  "zero_pad w n = replicate (w - length (str_nat n)) CHR ''0'' @ str_nat n"

definition timestamp_spec :: "nat \<Rightarrow> string" where
  "timestamp_spec ms =
     zero_pad 2 (ms div 3600000) @ '':'' @ zero_pad 2 (ms div 60000 mod 60) @ '':'' @
     zero_pad 2 (ms div 1000 mod 60) @ '','' @ zero_pad 3 (ms mod 1000)"

text \<open>The first token of a line: up to the first space character, and up to the first
  whitespace character.\<close>

definition first_space_token :: "string \<Rightarrow> string" where
  "first_space_token line = takeWhile (\<lambda>c. c \<noteq> CHR '' '') line"

definition first_whitespace_token :: "string \<Rightarrow> string" where
  "first_whitespace_token line = takeWhile (\<lambda>c. \<not> py_isspace c) line"


text \<open>
  The job lifecycle of the specification, on the list of statuses read one after the other
  (\<open>None\<close> while the job is not registered): not registered, then \<open>burning\<close>, then one of
  \<open>done\<close> and \<open>error\<close>, each for any number of reads; a job that is registered starts as
  \<open>burning\<close>. \<open>status_step\<close> is the change allowed between two consecutive reads.
\<close>

definition status_step :: "string option \<Rightarrow> string option \<Rightarrow> bool" where
  "status_step a b \<longleftrightarrow>
     a = b \<or> (a = None \<and> b = Some ''burning'') \<or>
     (a = Some ''burning'' \<and> (b = Some ''done'' \<or> b = Some ''error''))"

definition lifecycle :: "string option list \<Rightarrow> bool" where
  "lifecycle xs \<longleftrightarrow>
     (\<exists>a b c t. xs = replicate a None @ replicate b (Some ''burning'') @ replicate c (Some t) \<and>
        (t = ''done'' \<or> t = ''error'') \<and> (b = 0 \<longrightarrow> c = 0))"

text \<open>
  The invariant of the server behind the lifecycle: the scheduled tasks belong to different
  jobs, each of them registered with the status \<open>burning\<close>. \<open>fresh_uploads\<close> is what
  \<open>uuid4\<close> promises of the identifiers of the uploads still to come: they differ from each
  other and from every registered job's.
\<close>

definition tasks_burning :: "server \<Rightarrow> bool" where
  "tasks_burning s \<longleftrightarrow>
     distinct (map t_job_id (background_tasks s)) \<and>
     (\<forall>t \<in> set (background_tasks s). read_status (t_job_id t) s = Some ''burning'')"

definition fresh_uploads :: "server \<Rightarrow> event list \<Rightarrow> bool" where
  "fresh_uploads s evs \<longleftrightarrow>
     distinct (upload_ids evs) \<and> (\<forall>u \<in> set (upload_ids evs). JOBS s u = None)"

subsection \<open>A subtitle consumer\<close>

text \<open>
  Modelled from the spec: the block of a SubtitleFile as a consumer reads it, (index,
  start-timestamp, end-timestamp, text). No parser of subtitle files is part of the
  repository's sources.
\<close>

record block =
  b_index :: nat
  b_start :: string
  b_end :: string
  b_text :: string

text \<open>Modelled from the spec: the decimal digits of a block's index line, and their value.\<close>

definition ascii_digit :: "char \<Rightarrow> bool" where
  "ascii_digit c \<longleftrightarrow> c \<in> set ''0123456789''"

definition digit_val :: "char \<Rightarrow> nat" where
  "digit_val c = of_char c - 48"

text \<open>Modelled from the spec: reading the index line of a block, a decimal number.\<close>

definition parse_nat :: "string \<Rightarrow> nat option" where
  "parse_nat s =
     (if s \<noteq> [] \<and> list_all ascii_digit s
      then Some (foldl (\<lambda>acc c. 10 * acc + digit_val c) 0 s) else None)"

text \<open>Modelled from the spec: reading the range line \<open>start --> end\<close> of a block.\<close>

definition parse_range :: "string \<Rightarrow> (string \<times> string) option" where
  "parse_range line =
     (let a = takeWhile (\<lambda>c. c \<noteq> CHR '' '') line;
          r = dropWhile (\<lambda>c. c \<noteq> CHR '' '') line
      in if take 5 r = '' --> '' then Some (a, drop 5 r) else None)"

text \<open>
  Modelled from the spec: reading the lines of a SubtitleFile as sequential blocks, each an
  index line, a range line and the caption text up to the blank-line separator; blank lines
  between blocks are skipped.
\<close>

function parse_blocks :: "string list \<Rightarrow> block list option" where
  "parse_blocks [] = Some []"
| "parse_blocks [l] = (if l = [] then Some [] else None)"
| "parse_blocks (l # tline # rest) =
     (if l = [] then parse_blocks (tline # rest)
      else
        (case (parse_nat l, parse_range tline) of
           (Some i, Some (a, b)) \<Rightarrow>
             (case parse_blocks (dropWhile (\<lambda>x. x \<noteq> []) rest) of
                Some bs \<Rightarrow>
                  Some (\<lparr>b_index = i, b_start = a, b_end = b,
                         b_text = py_join ''\<newline>'' (takeWhile (\<lambda>x. x \<noteq> []) rest)\<rparr> # bs)
              | None \<Rightarrow> None)
         | _ \<Rightarrow> None))"
  by pat_completeness auto
termination
  by (relation "measure length") (auto simp: less_Suc_eq_le intro: le_SucI length_dropWhile_le)

text \<open>Modelled from the spec: parsing the content of a SubtitleFile.\<close>

definition parse_srt :: "string \<Rightarrow> block list option" where
  "parse_srt content = parse_blocks (py_split CHR ''\<newline>'' content)"

text \<open>The blocks a consumer is to find for a segment list, numbered from \<open>i\<close>.\<close>

fun expected_blocks :: "(pyfloat \<Rightarrow> pyfloat \<Rightarrow> pyfloat) \<Rightarrow> nat \<Rightarrow> segment list \<Rightarrow> block list" where
  "expected_blocks fmul i [] = []"
| "expected_blocks fmul i (seg # segs) =
     \<lparr>b_index = i, b_start = srt_time fmul (seg_start seg), b_end = srt_time fmul (seg_end seg),
      b_text = py_strip (seg_text seg)\<rparr> # expected_blocks fmul (Suc i) segs"

text \<open>A caption text with no blank line in it, and the characters of a timestamp.\<close>

definition no_blank_line :: "string \<Rightarrow> bool" where
  "no_blank_line t \<longleftrightarrow> t = [] \<or> [] \<notin> set (py_split CHR ''\<newline>'' t)"

definition timestamp_char :: "char \<Rightarrow> bool" where
  "timestamp_char c \<longleftrightarrow> ascii_digit c \<or> c = CHR ''-'' \<or> c = CHR '':'' \<or> c = CHR '',''"

section \<open>Sample inputs\<close>

definition mk_segment :: "pyfloat \<Rightarrow> pyfloat \<Rightarrow> string \<Rightarrow> segment" where
  "mk_segment a b t = \<lparr>seg_start = a, seg_end = b, seg_text = t, seg_original_text = None\<rparr>"

definition demo_segments :: "segment list" where
  "demo_segments = [mk_segment 0 (3/2) ''a'', mk_segment 2 3 ''b'', mk_segment 4 5 ''c'']"

text \<open>A collaborator that answers every call with the same text.\<close>

definition reply :: "string \<Rightarrow> collaborator" where
  "reply t k p = Text t"

definition demo_video :: path where
  "demo_video = Path ''storage/j1_clip.mov''"

definition tab_line :: string where
  "tab_line = ''1.'' @ [CHR 0x09] @ ''Hello''"

text \<open>One segment whose text holds a blank line and the lines of a second block, and the
  two segments it is serialized like.\<close>

definition smuggled_block :: "segment list" where
  "smuggled_block = [mk_segment 0 0 ''a\<newline>\<newline>2\<newline>00:00:00,000 --> 00:00:00,000\<newline>b'']"

definition two_blocks :: "segment list" where
  "two_blocks = [mk_segment 0 0 ''a'', mk_segment 0 0 ''b'']"

text \<open>A status query, an upload, and the upload's task run with a failing encoder.\<close>

definition demo_events :: "event list" where
  "demo_events =
     [Status ''j1'',
      Upload (Some ''video/mp4'') ''clip.mov'' ''en'' ''j1'' (Inr [mk_segment 0 (3/2) ''konnichiwa''])
        (reply ''1. Hello''),
      Status ''j1'',
      Burn ''j1'' (EncError ''boom'' ''ffmpeg error (see stderr output for detail)''),
      Status ''j1'',
      Burn ''j1'' EncOk]"

section \<open>Timestamps\<close>

lemma length_str_nat_10: "n < 10 \<Longrightarrow> length (str_nat n) = 1"
  by (subst str_nat.simps) simp

lemma length_str_nat_100: "n < 100 \<Longrightarrow> length (str_nat n) \<le> 2"
  by (subst str_nat.simps) (simp add: length_str_nat_10)

lemma length_str_nat_1000: "n < 1000 \<Longrightarrow> length (str_nat n) \<le> 3"
  using length_str_nat_100 [of "n div 10"] by (subst str_nat.simps) auto

lemma length_zero_pad: "length (zero_pad w n) = max w (length (str_nat n))"
  by (simp add: zero_pad_def)

lemma py_fmt_0d_nonneg: "0 \<le> n \<Longrightarrow> py_fmt_0d w n = zero_pad w (nat n)"
  by (simp add: py_fmt_0d_def zero_pad_def Let_def)

lemma minutes_field: "ms mod 3600000 div 60000 = ms div 60000 mod 60" for ms :: nat
  using mod_mult2_eq [of ms 60000 60] by simp

lemma seconds_field: "ms mod 60000 div 1000 = ms div 1000 mod 60" for ms :: nat
  using mod_mult2_eq [of ms 1000 60] by simp

lemma py_int_nonneg: "0 \<le> x \<Longrightarrow> py_int x = \<lfloor>x\<rfloor>"
  by (simp add: py_int_def)

text \<open>The fields of the specification's timestamp have the stated widths: the whole string
  has twelve characters unless the hours need more than two digits.\<close>

lemma length_timestamp_spec:
  "length (timestamp_spec ms) = 10 + max 2 (length (str_nat (ms div 3600000)))"
proof -
  have "length (zero_pad 2 (ms div 60000 mod 60)) = 2"
    using length_str_nat_100 [of "ms div 60000 mod 60"] by (simp add: length_zero_pad)
  moreover have "length (zero_pad 2 (ms div 1000 mod 60)) = 2"
    using length_str_nat_100 [of "ms div 1000 mod 60"] by (simp add: length_zero_pad)
  moreover have "length (zero_pad 3 (ms mod 1000)) = 3"
    using length_str_nat_1000 [of "ms mod 1000"] by (simp add: length_zero_pad)
  ultimately show ?thesis
    by (simp add: timestamp_spec_def length_zero_pad)
qed

text \<open>
  Claim C3. For a number of seconds whose product with 1000 is not negative (as the float
  product of a non-negative float is), \<open>_srt_time\<close> returns the timestamp of the
  specification for the millisecond count \<open>ms\<close> obtained by truncating the product:
  \<open>ms \<le> seconds * 1000 < ms + 1\<close>, never the nearest integer.
\<close>

theorem srt_time_truncated_format:
  assumes "0 \<le> fmul seconds 1000"
  shows "srt_time fmul seconds = timestamp_spec (nat \<lfloor>fmul seconds 1000\<rfloor>) \<and>
         of_nat (nat \<lfloor>fmul seconds 1000\<rfloor>) \<le> fmul seconds 1000 \<and>
         fmul seconds 1000 < of_nat (nat \<lfloor>fmul seconds 1000\<rfloor>) + 1"
proof -
  define ms where "ms = \<lfloor>fmul seconds 1000\<rfloor>"
  have ms: "0 \<le> ms"
    using assms by (simp add: ms_def)
  have "srt_time fmul seconds =
     py_fmt_0d 2 (ms div 3600000) @ '':'' @ py_fmt_0d 2 ((ms mod 3600000) div 60000) @ '':'' @
     py_fmt_0d 2 ((ms mod 60000) div 1000) @ '','' @ py_fmt_0d 3 (ms mod 1000)"
    using assms by (simp add: srt_time_def py_int_nonneg ms_def Let_def)
  also have "\<dots> = timestamp_spec (nat ms)"
    using ms unfolding timestamp_spec_def
    by (simp add: py_fmt_0d_nonneg pos_imp_zdiv_nonneg_iff minutes_field seconds_field
        nat_div_distrib nat_mod_distrib)
  finally have fmt: "srt_time fmul seconds = timestamp_spec (nat ms)" .
  have "of_nat (nat ms) = (of_int ms :: rat)"
    using ms by simp
  moreover have "of_int ms \<le> fmul seconds 1000" "fmul seconds 1000 < of_int ms + 1"
    unfolding ms_def by linarith+
  ultimately have "of_nat (nat ms) \<le> fmul seconds 1000" "fmul seconds 1000 < of_nat (nat ms) + 1"
    by simp_all
  with fmt show ?thesis
    by (simp add: ms_def)
qed

theorem srt_time_truncated_format_witness:
  "(0::rat) \<le> (36615 / 10) * 1000 \<and> srt_time (*) (36615 / 10) = ''01:01:01,500''"
proof -
  have h: "(0::rat) \<le> (36615 / 10) * 1000"
    by simp
  have "timestamp_spec 3661500 = ''01:01:01,500''"
    by (simp add: timestamp_spec_def zero_pad_def str_nat.simps digit_char_def)
  with srt_time_truncated_format [of "(*)" "36615 / 10", OF h] h show ?thesis
    by simp
qed

section \<open>Alignment of translated lines\<close>

lemma pad_cleaned_short:
  "length cleaned \<le> length segments \<Longrightarrow>
   pad_cleaned segments cleaned = cleaned @ map seg_text (drop (length cleaned) segments)"
proof (induction segments cleaned rule: pad_cleaned.induct)
  case (1 segments cleaned_all)
  show ?case
  proof (cases "length cleaned_all < length segments")
    case True
    then have "pad_cleaned segments cleaned_all =
        (cleaned_all @ [seg_text (segments ! length cleaned_all)]) @
          map seg_text (drop (Suc (length cleaned_all)) segments)"
      using "1.IH" by (subst pad_cleaned.simps) simp
    also have "\<dots> = cleaned_all @ map seg_text (drop (length cleaned_all) segments)"
      using True by (simp add: Cons_nth_drop_Suc [symmetric])
    finally show ?thesis .
  next
    case False
    with "1.prems" show ?thesis by (subst pad_cleaned.simps) simp
  qed
qed

lemma pad_cleaned_long:
  "length segments \<le> length cleaned \<Longrightarrow> pad_cleaned segments cleaned = cleaned"
  by (subst pad_cleaned.simps) simp

lemma length_assign_texts [simp]: "length (assign_texts segs trs) = length segs"
  by (induction segs trs rule: assign_texts.induct) auto

lemma map_seg_text_assign_texts:
  "map seg_text (assign_texts segs trs) =
     take (length segs) trs @ map seg_text (drop (length trs) segs)"
  by (induction segs trs rule: assign_texts.induct) auto

lemma with_original_simps [simp]:
  "length (with_original segments) = length segments"
  "map seg_text (with_original segments) = map seg_text segments"
  by (simp_all add: with_original_def comp_def)

text \<open>The run of the stage when there is text to translate and the chunk loop returns.\<close>

lemma transcribe_video_translated:
  assumes "list_ex (\<lambda>seg. py_strip (seg_text seg) \<noteq> []) segments"
    and "translate_loop gen target_lang (map seg_text segments) 0 (gemini_calls e) [] =
           Inr (cleaned, k)"
  shows "transcribe_video fmul (Inr segments) gen video_path output_dir target_lang e =
     (let segments2 = assign_texts (with_original segments)
            (if length cleaned \<noteq> length segments
             then pad_cleaned (with_original segments) cleaned else cleaned)
      in Inr ((segments2, srt_path_of video_path output_dir target_lang),
              \<lparr>gemini_calls = k,
               files = (files e)(srt_path_of video_path output_dir target_lang
                                   \<mapsto> write_srt fmul segments2)\<rparr>))"
proof -
  from assms(1) have "segments \<noteq> []" by auto
  with assms show ?thesis
    by (simp add: transcribe_video_def Let_def)
qed

text \<open>A chunk loop over at most \<open>chunk_size\<close> texts whose first call is answered with a
  text: the recovered lines are the response's non-blank lines, trimmed, with the
  numbering-stripping step applied.\<close>

lemma translate_loop_single_chunk:
  assumes "0 < length texts" "length texts \<le> chunk_size"
    and "gen k (prompt target_lang texts) = Text t" "t \<noteq> []"
  shows "translate_loop gen target_lang texts 0 k [] =
     Inr (map strip_numbering (response_lines t), Suc k)"
proof -
  have "chunk_lines gen target_lang k (take chunk_size (drop 0 texts)) =
      Inr (response_lines t, Suc k)"
    using assms by (simp add: chunk_lines_def)
  moreover have "translate_loop gen target_lang texts (0 + chunk_size) (Suc k)
      (map strip_numbering (response_lines t)) =
        Inr (map strip_numbering (response_lines t), Suc k)"
    using assms(2) by (subst translate_loop.simps) simp
  ultimately show ?thesis
    using assms(1) by (subst translate_loop.simps) simp
qed

text \<open>
  Claim C1. When there is text to translate and the chunk loop returns \<open>m\<close> recovered lines
  for \<open>n\<close> segments with \<open>m < n\<close>, the stage returns (no error): segment \<open>i < m\<close> has recovered
  line \<open>i\<close> as its text and every segment \<open>i\<close> with \<open>m \<le> i < n\<close> keeps the text it had before
  translation.
\<close>

theorem short_response_keeps_original_text:
  assumes "list_ex (\<lambda>seg. py_strip (seg_text seg) \<noteq> []) segments"
    and "translate_loop gen target_lang (map seg_text segments) 0 (gemini_calls e) [] =
           Inr (cleaned, k)"
    and "length cleaned < length segments"
  shows "\<exists>segments' e'.
     transcribe_video fmul (Inr segments) gen video_path output_dir target_lang e =
       Inr ((segments', srt_path_of video_path output_dir target_lang), e') \<and>
     length segments' = length segments \<and>
     (\<forall>i < length cleaned. seg_text (segments' ! i) = cleaned ! i) \<and>
     (\<forall>i. length cleaned \<le> i \<and> i < length segments \<longrightarrow>
          seg_text (segments' ! i) = seg_text (segments ! i))"
proof -
  define padded where "padded = pad_cleaned (with_original segments) cleaned"
  define segments' where "segments' = assign_texts (with_original segments) padded"
  have padded: "padded = cleaned @ map seg_text (drop (length cleaned) segments)"
    using assms(3) by (simp add: padded_def pad_cleaned_short drop_map [symmetric])
  then have len: "length padded = length segments"
    using assms(3) by simp
  have texts: "map seg_text segments' = padded"
    by (simp add: segments'_def map_seg_text_assign_texts len)
  have nth: "seg_text (segments' ! i) = padded ! i" if "i < length segments" for i
  proof -
    from that have "i < length segments'" by (simp add: segments'_def)
    then have "seg_text (segments' ! i) = map seg_text segments' ! i" by simp
    then show ?thesis by (simp only: texts)
  qed
  have run: "transcribe_video fmul (Inr segments) gen video_path output_dir target_lang e =
       Inr ((segments', srt_path_of video_path output_dir target_lang),
         \<lparr>gemini_calls = k,
          files = (files e)(srt_path_of video_path output_dir target_lang
                                   \<mapsto> write_srt fmul segments')\<rparr>)"
    using assms(3)
    by (simp add: transcribe_video_translated [OF assms(1,2)] segments'_def padded_def Let_def)
  have first: "seg_text (segments' ! i) = cleaned ! i" if "i < length cleaned" for i
    using that assms(3) by (simp add: nth padded nth_append)
  have rest: "seg_text (segments' ! i) = seg_text (segments ! i)"
    if "length cleaned \<le> i" "i < length segments" for i
    using that by (simp add: nth padded nth_append)
  from run first rest show ?thesis
    by (auto simp: segments'_def)
qed

theorem short_response_keeps_original_text_witness:
  "list_ex (\<lambda>seg. py_strip (seg_text seg) \<noteq> []) demo_segments \<and>
   translate_loop (reply ''1. Hello\<newline>2. World'') ''en'' (map seg_text demo_segments) 0
       (gemini_calls (world init_server)) [] = Inr ([''Hello'', ''World''], 1) \<and>
   length [''Hello'', ''World''] < length demo_segments \<and>
   (\<exists>segments' e'.
     transcribe_video (*) (Inr demo_segments) (reply ''1. Hello\<newline>2. World'') demo_video
         STORAGE_DIR ''en'' (world init_server) =
       Inr ((segments', srt_path_of demo_video STORAGE_DIR ''en''), e') \<and>
     length segments' = length demo_segments \<and>
     (\<forall>i < length [''Hello'', ''World'']. seg_text (segments' ! i) = [''Hello'', ''World''] ! i) \<and>
     (\<forall>i. length [''Hello'', ''World''] \<le> i \<and> i < length demo_segments \<longrightarrow>
          seg_text (segments' ! i) = seg_text (demo_segments ! i)))"
proof -
  have h1: "list_ex (\<lambda>seg. py_strip (seg_text seg) \<noteq> []) demo_segments"
    by code_simp
  have h2: "translate_loop (reply ''1. Hello\<newline>2. World'') ''en'' (map seg_text demo_segments) 0
       (gemini_calls (world init_server)) [] = Inr ([''Hello'', ''World''], 1)"
    by code_simp
  have h3: "length [''Hello'', ''World''] < length demo_segments"
    by code_simp
  from short_response_keeps_original_text [OF h1 h2 h3] h1 h2 h3 show ?thesis
    by blast
qed

text \<open>
  Claim C9. When the chunk loop returns more recovered lines than there are segments, the
  stage returns (no error), the padding loop adds nothing, the segments' texts are the first
  \<open>n\<close> recovered lines in order, and the surplus lines appear nowhere in the result.
\<close>

theorem long_response_surplus_discarded:
  assumes "list_ex (\<lambda>seg. py_strip (seg_text seg) \<noteq> []) segments"
    and "translate_loop gen target_lang (map seg_text segments) 0 (gemini_calls e) [] =
           Inr (cleaned, k)"
    and "length segments < length cleaned"
  shows "\<exists>segments' e'.
     transcribe_video fmul (Inr segments) gen video_path output_dir target_lang e =
       Inr ((segments', srt_path_of video_path output_dir target_lang), e') \<and>
     map seg_text segments' = take (length segments) cleaned \<and>
     pad_cleaned (with_original segments) cleaned = cleaned"
proof -
  have pad: "pad_cleaned (with_original segments) cleaned = cleaned"
    using assms(3) by (simp add: pad_cleaned_long)
  define segments' where "segments' = assign_texts (with_original segments) cleaned"
  have "map seg_text segments' = take (length segments) cleaned"
    using assms(3) by (simp add: segments'_def map_seg_text_assign_texts)
  moreover have "transcribe_video fmul (Inr segments) gen video_path output_dir target_lang e =
       Inr ((segments', srt_path_of video_path output_dir target_lang),
         \<lparr>gemini_calls = k,
          files = (files e)(srt_path_of video_path output_dir target_lang
                                   \<mapsto> write_srt fmul segments')\<rparr>)"
    by (simp add: transcribe_video_translated [OF assms(1,2)] segments'_def pad Let_def)
  ultimately show ?thesis using pad by blast
qed

theorem long_response_surplus_discarded_witness:
  "list_ex (\<lambda>seg. py_strip (seg_text seg) \<noteq> []) demo_segments \<and>
   translate_loop (reply ''1. A\<newline>2. B\<newline>3. C\<newline>4. D'') ''en'' (map seg_text demo_segments) 0
       (gemini_calls (world init_server)) [] = Inr ([''A'', ''B'', ''C'', ''D''], 1) \<and>
   length demo_segments < length [''A'', ''B'', ''C'', ''D''] \<and>
   (\<exists>segments' e'.
     transcribe_video (*) (Inr demo_segments) (reply ''1. A\<newline>2. B\<newline>3. C\<newline>4. D'') demo_video
         STORAGE_DIR ''en'' (world init_server) =
       Inr ((segments', srt_path_of demo_video STORAGE_DIR ''en''), e') \<and>
     map seg_text segments' = [''A'', ''B'', ''C''])"
proof -
  have h1: "list_ex (\<lambda>seg. py_strip (seg_text seg) \<noteq> []) demo_segments"
    by code_simp
  have h2: "translate_loop (reply ''1. A\<newline>2. B\<newline>3. C\<newline>4. D'') ''en'' (map seg_text demo_segments) 0
       (gemini_calls (world init_server)) [] = Inr ([''A'', ''B'', ''C'', ''D''], 1)"
    by code_simp
  have h3: "length demo_segments < length [''A'', ''B'', ''C'', ''D'']"
    by code_simp
  have t: "take (length demo_segments) [''A'', ''B'', ''C'', ''D''] = [''A'', ''B'', ''C'']"
    by code_simp
  from long_response_surplus_discarded [OF h1 h2 h3, of "(*)" demo_video STORAGE_DIR]
  obtain segments' e' where
    "transcribe_video (*) (Inr demo_segments) (reply ''1. A\<newline>2. B\<newline>3. C\<newline>4. D'') demo_video
         STORAGE_DIR ''en'' (world init_server) =
       Inr ((segments', srt_path_of demo_video STORAGE_DIR ''en''), e')"
    "map seg_text segments' = take (length demo_segments) [''A'', ''B'', ''C'', ''D'']"
    by blast
  with t h1 h2 h3 show ?thesis
    by (metis (no_types))
qed




text \<open>
  Claim C7. When the segment list is empty or every segment's text is empty or whitespace,
  the stage returns the segments as the recogniser gave them, makes no call to the
  translation collaborator (whatever the collaborator is, the call counter is unchanged),
  writes the subtitle file from those segments, and the file's path is the output directory
  joined with \<open><stem>.<target_lang>.srt\<close>.
\<close>

theorem empty_transcript_skips_translation:
  assumes "segments = [] \<or> list_all (\<lambda>seg. py_strip (seg_text seg) = []) segments"
  shows "transcribe_video fmul (Inr segments) gen video_path output_dir target_lang e =
     Inr ((segments, path_div output_dir (path_stem video_path @ ''.'' @ target_lang @ ''.srt'')),
          e\<lparr>files := (files e)
               (path_div output_dir (path_stem video_path @ ''.'' @ target_lang @ ''.srt'')
                  \<mapsto> write_srt fmul segments)\<rparr>)"
proof -
  from assms have "segments = [] \<or> \<not> list_ex (\<lambda>seg. py_strip (seg_text seg) \<noteq> []) segments"
    by (auto simp: list_all_iff list_ex_iff)
  then show ?thesis
    by (auto simp: transcribe_video_def srt_path_of_def Let_def)
qed

theorem empty_transcript_skips_translation_witness:
  "([mk_segment 0 1 ''  ''] = [] \<or> list_all (\<lambda>seg. py_strip (seg_text seg) = []) [mk_segment 0 1 ''  '']) \<and>
   transcribe_video (*) (Inr [mk_segment 0 1 ''  '']) (reply ''1. Hello'') demo_video STORAGE_DIR ''ur''
       (world init_server) =
     Inr (([mk_segment 0 1 ''  ''], Path ''storage/j1_clip.ur.srt''),
          \<lparr>gemini_calls = 0,
           files = [Path ''storage/j1_clip.ur.srt'' \<mapsto> ''1\<newline>00:00:00,000 --> 00:00:01,000\<newline>\<newline>\<newline>'']\<rparr>)"
proof -
  have h: "[mk_segment 0 1 ''  ''] = [] \<or> list_all (\<lambda>seg. py_strip (seg_text seg) = []) [mk_segment 0 1 ''  '']"
    by code_simp
  have p: "path_div STORAGE_DIR (path_stem demo_video @ ''.'' @ ''ur'' @ ''.srt'') =
      Path ''storage/j1_clip.ur.srt''"
    by code_simp
  have w: "write_srt (*) [mk_segment 0 1 ''  ''] = ''1\<newline>00:00:00,000 --> 00:00:01,000\<newline>\<newline>\<newline>''"
    by code_simp
  have "world init_server = \<lparr>gemini_calls = 0, files = Map.empty\<rparr>"
    by (simp add: init_server_def)
  with empty_transcript_skips_translation [OF h, of "(*)" "reply ''1. Hello''" demo_video
      STORAGE_DIR "''ur''" "world init_server"] h p w
  show ?thesis
    by simp
qed

section \<open>The numbering-stripping step\<close>

lemma py_split_not_Nil [simp]: "py_split sep s \<noteq> []"
  by (induction s) (auto split: list.splits)

lemma py_split_decomp:
  "py_split sep s =
     takeWhile (\<lambda>c. c \<noteq> sep) s #
       (if sep \<in> set s then py_split sep (tl (dropWhile (\<lambda>c. c \<noteq> sep) s)) else [])"
proof (induction s)
  case Nil
  show ?case by simp
next
  case (Cons c cs)
  show ?case
  proof (cases "c = sep")
    case True
    then show ?thesis by simp
  next
    case False
    then show ?thesis by (simp add: Cons.IH)
  qed
qed

lemma py_join_py_split: "py_join [sep] (py_split sep s) = s"
proof (induction s)
  case Nil
  show ?case by simp
next
  case (Cons c cs)
  obtain w ws where split: "py_split sep cs = w # ws"
    by (cases "py_split sep cs") auto
  show ?case
  proof (cases "c = sep")
    case True
    with Cons.IH split show ?thesis by simp
  next
    case False
    with Cons.IH split show ?thesis by (cases ws) auto
  qed
qed

lemma py_join_tl_py_split:
  "py_join [sep] (tl (py_split sep s)) = drop (Suc (length (takeWhile (\<lambda>c. c \<noteq> sep) s))) s"
proof (cases "sep \<in> set s")
  case True
  have "drop (Suc (length (takeWhile (\<lambda>c. c \<noteq> sep) s))) s = tl (dropWhile (\<lambda>c. c \<noteq> sep) s)"
    by (simp add: dropWhile_eq_drop drop_Suc tl_drop)
  moreover have "tl (py_split sep s) = py_split sep (tl (dropWhile (\<lambda>c. c \<noteq> sep) s))"
    using True by (subst py_split_decomp) simp
  ultimately show ?thesis by (simp add: py_join_py_split)
next
  case False
  then have "length (takeWhile (\<lambda>c. c \<noteq> sep) s) = length s"
    by (induction s) auto
  moreover have "tl (py_split sep s) = []"
    using False by (subst py_split_decomp) simp
  ultimately show ?thesis by simp
qed

text \<open>
  Claim C10, as stated, fails: the token the step looks at ends at the first space
  character, not at the first whitespace character. The recovered line \<open>1.<TAB>Hello\<close> has
  the first whitespace-delimited token \<open>1.\<close>, all digits once its periods are removed, and
  the step keeps the line as it is.
\<close>

theorem strip_numbering_whitespace_token_counterexample:
  "response_lines tab_line = [tab_line] \<and>
   py_isdigit (py_rstrip_dot (first_whitespace_token tab_line)) \<and>
   strip_numbering tab_line = tab_line"
  by code_simp

text \<open>
  Claim C10, amended. For every line, with its first token taken up to the first space
  character: if the token without its trailing periods is a non-empty run of digits, the
  step removes the token and the space after it, whatever the token means; otherwise the
  line is kept unchanged.
\<close>

theorem strip_numbering_first_space_token:
  "strip_numbering line =
     (if py_isdigit (py_rstrip_dot (first_space_token line))
      then drop (Suc (length (first_space_token line))) line
      else line)"
proof -
  obtain rest where split: "py_split CHR '' '' line = first_space_token line # rest"
    using py_split_decomp [of "CHR '' ''" line] by (simp add: first_space_token_def)
  then have "py_join '' '' rest = drop (Suc (length (first_space_token line))) line"
    using py_join_tl_py_split [of "CHR '' ''" line] by (simp add: first_space_token_def)
  with split show ?thesis
    by (simp add: strip_numbering_def)
qed

theorem strip_numbering_first_space_token_witness:
  "strip_numbering ''2023 was a good year'' = ''was a good year'' \<and>
   strip_numbering ''Hello 2023'' = ''Hello 2023''"
  using strip_numbering_first_space_token [of "''2023 was a good year''"]
    strip_numbering_first_space_token [of "''Hello 2023''"]
  by (simp add: first_space_token_def py_rstrip_dot_def py_isdigit_def py_isdigit_char_def)

section \<open>The burned video's file name\<close>

lemma py_split_no_sep: "sep \<notin> set s \<Longrightarrow> py_split sep s = [s]"
  by (induction s) auto

lemma Path_simple_name:
  assumes "CHR ''/'' \<notin> set s" "s \<noteq> []" "s \<noteq> ''.''"
  shows "Path s = \<lparr>p_root = [], p_parts = [s]\<rparr>"
proof -
  from assms(1,2) have "take 1 s \<noteq> ''/''" "take 2 s \<noteq> ''//''"
    by (cases s; cases "tl s"; auto)+
  with assms show ?thesis
    by (simp add: Path_def py_split_no_sep)
qed

lemma path_name_path_div:
  assumes "CHR ''/'' \<notin> set s" "s \<noteq> []" "s \<noteq> ''.''"
  shows "path_name (path_div p s) = s"
  using assms by (simp add: path_div_def Path_simple_name path_name_def Let_def)

lemma name_suffix_mp4:
  assumes "x \<noteq> []"
  shows "name_suffix (x @ ''.mp4'') = ''.mp4''"
proof -
  have "takeWhile (\<lambda>c. c \<noteq> CHR ''.'') (rev (x @ ''.mp4'')) = ''4pm''"
    by simp
  then show ?thesis
    using assms by (simp add: name_suffix_def Let_def)
qed

text \<open>
  Claim C8, as stated, fails: the extension of the output is always \<open>mp4\<close>, not the source
  video's. The source \<open>storage/j1_clip.mov\<close> has the suffix \<open>.mov\<close> and its burned video is
  \<open>storage/j1_clip.en_burned.mp4\<close>.
\<close>

theorem burned_output_extension_counterexample:
  "path_suffix demo_video = ''.mov'' \<and>
   burn_subtitles EncOk demo_video (Path ''storage/j1_clip.en.srt'') STORAGE_DIR ''en'' =
     Inr (Path ''storage/j1_clip.en_burned.mp4'') \<and>
   Path ''storage/j1_clip.en_burned.mp4'' \<noteq>
     path_div STORAGE_DIR (path_stem demo_video @ ''.'' @ ''en'' @ ''_burned'' @ path_suffix demo_video)"
  by code_simp

text \<open>
  Claim C8, amended. For every source video path, target language code and output
  directory (the stem and the code without a slash), a successful compositing stage returns
  the output directory joined with \<open><source-stem>.<lang>_burned.mp4\<close>: this is the name of
  the file, and its extension is \<open>.mp4\<close> whatever the source's extension is.
\<close>

theorem burned_output_name:
  assumes "CHR ''/'' \<notin> set (path_stem video_path)" and "CHR ''/'' \<notin> set target_lang"
  shows "\<exists>out_file.
     burn_subtitles EncOk video_path srt_path output_dir target_lang = Inr out_file \<and>
     out_file = path_div output_dir (path_stem video_path @ ''.'' @ target_lang @ ''_burned.mp4'') \<and>
     path_name out_file = path_stem video_path @ ''.'' @ target_lang @ ''_burned.mp4'' \<and>
     path_suffix out_file = ''.mp4''"
proof -
  define nm where "nm = path_stem video_path @ ''.'' @ target_lang @ ''_burned.mp4''"
  have "CHR ''/'' \<notin> set nm" "nm \<noteq> []" "nm \<noteq> ''.''"
    using assms by (auto simp: nm_def)
  then have name: "path_name (path_div output_dir nm) = nm"
    by (rule path_name_path_div)
  have "nm = (path_stem video_path @ ''.'' @ target_lang @ ''_burned'') @ ''.mp4''"
    by (simp add: nm_def)
  then have "name_suffix nm = ''.mp4''"
    by (simp only: name_suffix_mp4 append_is_Nil_conv list.distinct simp_thms)
  with name show ?thesis
    by (simp add: burn_subtitles_def path_suffix_def nm_def)
qed

theorem burned_output_name_witness:
  "CHR ''/'' \<notin> set (path_stem demo_video) \<and> CHR ''/'' \<notin> set ''en'' \<and>
   (\<exists>out_file.
     burn_subtitles EncOk demo_video (Path ''storage/j1_clip.en.srt'') STORAGE_DIR ''en'' =
       Inr out_file \<and>
     path_name out_file = ''j1_clip.en_burned.mp4'' \<and> path_suffix out_file = ''.mp4'')"
proof -
  have h1: "CHR ''/'' \<notin> set (path_stem demo_video)"
    by code_simp
  have h2: "CHR ''/'' \<notin> set ''en''"
    by simp
  have "path_stem demo_video @ ''.'' @ ''en'' @ ''_burned.mp4'' = ''j1_clip.en_burned.mp4''"
    by code_simp
  with burned_output_name [OF h1 h2, of "Path ''storage/j1_clip.en.srt''" STORAGE_DIR] h1 h2
  show ?thesis
    by auto
qed

section \<open>The job registry\<close>

lemma read_status_eq: "read_status job_id s = map_option j_status (JOBS s job_id)"
  by (simp add: read_status_def job_status_def split: option.splits)

lemma upload_video_cases:
  "upload_video fmul content_type filename lang uuid asr gen s = (r, s') \<Longrightarrow>
   s' = s \<or>
   (\<exists>segments srt_path w. r = Ok uuid \<and>
      transcribe_video fmul asr gen (path_div STORAGE_DIR (uuid @ ''_'' @ filename)) STORAGE_DIR
        lang (world s) = Inr ((segments, srt_path), w) \<and>
      s' = \<lparr>JOBS = (JOBS s)(uuid \<mapsto>
              \<lparr>j_status = ''burning'', j_transcript = py_join ''\<newline>'' (map seg_text segments),
               j_output = None, j_error = None\<rparr>),
            background_tasks = background_tasks s @
              [\<lparr>t_job_id = uuid, t_video_path = path_div STORAGE_DIR (uuid @ ''_'' @ filename),
                t_srt_path = srt_path, t_target_lang = lang\<rparr>],
            world = w\<rparr>)"
  unfolding upload_video_def Let_def
  by (auto split: if_splits sum.splits prod.splits)

text \<open>An upload with a fresh identifier keeps the invariant, and changes the status of a job
  from not registered to \<open>burning\<close> or not at all.\<close>

lemma step_upload:
  assumes "tasks_burning s" and "JOBS s uuid = None"
  shows "tasks_burning (step fmul s (Upload content_type filename lang uuid asr gen)) \<and>
     status_step (read_status job_id s)
       (read_status job_id (step fmul s (Upload content_type filename lang uuid asr gen))) \<and>
     dom (JOBS (step fmul s (Upload content_type filename lang uuid asr gen))) \<subseteq>
       insert uuid (dom (JOBS s))"
proof -
  obtain r s' where up: "upload_video fmul content_type filename lang uuid asr gen s = (r, s')"
    by (cases "upload_video fmul content_type filename lang uuid asr gen s")
  then have s': "step fmul s (Upload content_type filename lang uuid asr gen) = s'"
    by simp
  from upload_video_cases [OF up] show ?thesis
  proof
    assume "s' = s"
    with assms s' show ?thesis by (auto simp: status_step_def)
  next
    assume "\<exists>segments srt_path w. r = Ok uuid \<and>
      transcribe_video fmul asr gen (path_div STORAGE_DIR (uuid @ ''_'' @ filename)) STORAGE_DIR
        lang (world s) = Inr ((segments, srt_path), w) \<and>
      s' = \<lparr>JOBS = (JOBS s)(uuid \<mapsto>
              \<lparr>j_status = ''burning'', j_transcript = py_join ''\<newline>'' (map seg_text segments),
               j_output = None, j_error = None\<rparr>),
            background_tasks = background_tasks s @
              [\<lparr>t_job_id = uuid, t_video_path = path_div STORAGE_DIR (uuid @ ''_'' @ filename),
                t_srt_path = srt_path, t_target_lang = lang\<rparr>],
            world = w\<rparr>"
    then obtain j t w where j: "j_status j = ''burning''" and t: "t_job_id t = uuid"
      and eq: "s' = \<lparr>JOBS = (JOBS s)(uuid \<mapsto> j),
                     background_tasks = background_tasks s @ [t], world = w\<rparr>"
      by force
    have notin: "uuid \<notin> t_job_id ` set (background_tasks s)"
      using assms by (auto simp: tasks_burning_def read_status_eq)
    have "tasks_burning s'"
      using assms notin j t unfolding tasks_burning_def eq
      by (auto simp: read_status_eq)
    moreover have "status_step (read_status job_id s) (read_status job_id s')"
      using assms(2) j by (auto simp: status_step_def read_status_eq eq)
    moreover have "dom (JOBS s') \<subseteq> insert uuid (dom (JOBS s))"
      by (auto simp: eq)
    ultimately show ?thesis unfolding s' by blast
  qed
qed

lemma background_burn_registered:
  assumes "jobs job_id = Some j"
  shows "\<exists>j'. background_burn enc job_id video_path srt_path target_lang jobs =
           Inr (jobs(job_id \<mapsto> j')) \<and>
     (j_status j' = ''done'' \<or> j_status j' = ''error'')"
  using assms by (auto simp: background_burn_def split: sum.splits)

text \<open>The run of a task keeps the invariant, and changes the status of a job from
  \<open>burning\<close> to \<open>done\<close> or \<open>error\<close> or not at all.\<close>

lemma step_burn:
  assumes "tasks_burning s"
  shows "tasks_burning (step fmul s (Burn jid enc)) \<and>
     status_step (read_status job_id s) (read_status job_id (step fmul s (Burn jid enc))) \<and>
     dom (JOBS (step fmul s (Burn jid enc))) \<subseteq> dom (JOBS s)"
proof (cases "find (\<lambda>t. t_job_id t = jid) (background_tasks s)")
  case None
  with assms show ?thesis by (simp add: status_step_def)
next
  case (Some t)
  then have t: "t \<in> set (background_tasks s)" "t_job_id t = jid"
    by (auto simp: find_Some_iff)
  with assms obtain j where j: "JOBS s jid = Some j" "j_status j = ''burning''"
    by (auto simp: tasks_burning_def read_status_eq)
  from background_burn_registered [of "JOBS s" jid j enc "t_video_path t" "t_srt_path t"
      "t_target_lang t"] j(1) obtain j' where
    burn: "background_burn enc jid (t_video_path t) (t_srt_path t) (t_target_lang t) (JOBS s) =
       Inr ((JOBS s)(jid \<mapsto> j'))"
    and j': "j_status j' = ''done'' \<or> j_status j' = ''error''"
    by blast
  define s' where
    "s' = s\<lparr>JOBS := (JOBS s)(jid \<mapsto> j'), background_tasks := remove1 t (background_tasks s)\<rparr>"
  have s': "step fmul s (Burn jid enc) = s'"
    using Some t(2) burn by (simp add: s'_def)
  have dist: "distinct (map t_job_id (background_tasks s))"
    using assms by (simp add: tasks_burning_def)
  then have inj: "inj_on t_job_id (set (background_tasks s))" and d: "distinct (background_tasks s)"
    by (simp_all add: distinct_map)
  have others: "t_job_id t' \<noteq> jid" if "t' \<in> set (remove1 t (background_tasks s))" for t'
    using that t inj d by (auto simp: inj_on_def)
  have "distinct (map t_job_id (remove1 t (background_tasks s)))"
    using inj d by (auto simp: distinct_map intro: inj_on_subset)
  then have "tasks_burning s'"
    using assms others d unfolding tasks_burning_def s'_def
    by (auto simp: read_status_eq)
  moreover have "status_step (read_status job_id s) (read_status job_id s')"
    using j j' by (auto simp: status_step_def read_status_eq s'_def)
  moreover have "dom (JOBS s') \<subseteq> dom (JOBS s)"
    using j by (auto simp: s'_def)
  ultimately show ?thesis unfolding s' by blast
qed

lemma step_keeps:
  assumes "tasks_burning s" and "fresh_uploads s (ev # evs)"
  shows "tasks_burning (step fmul s ev) \<and>
     status_step (read_status job_id s) (read_status job_id (step fmul s ev)) \<and>
     fresh_uploads (step fmul s ev) evs"
proof (cases ev)
  case (Upload content_type filename lang uuid asr gen)
  with assms(2) have fresh: "JOBS s uuid = None" "uuid \<notin> set (upload_ids evs)"
    "distinct (upload_ids evs)" "\<forall>u \<in> set (upload_ids evs). JOBS s u = None"
    by (auto simp: fresh_uploads_def)
  from step_upload [OF assms(1) fresh(1), of fmul content_type filename lang asr gen job_id]
  have a: "tasks_burning (step fmul s ev)"
    and b: "status_step (read_status job_id s) (read_status job_id (step fmul s ev))"
    and c: "dom (JOBS (step fmul s ev)) \<subseteq> insert uuid (dom (JOBS s))"
    by (simp_all add: Upload)
  have "JOBS (step fmul s ev) u = None" if "u \<in> set (upload_ids evs)" for u
  proof -
    from that fresh have "u \<noteq> uuid" "u \<notin> dom (JOBS s)" by auto
    with c have "u \<notin> dom (JOBS (step fmul s ev))" by blast
    then show ?thesis by blast
  qed
  with a b fresh(3) show ?thesis by (simp add: fresh_uploads_def)
next
  case (Burn jid enc)
  with assms(2) have fresh: "distinct (upload_ids evs)"
    "\<forall>u \<in> set (upload_ids evs). JOBS s u = None"
    by (auto simp: fresh_uploads_def)
  from step_burn [OF assms(1), of fmul jid enc job_id]
  have a: "tasks_burning (step fmul s ev)"
    and b: "status_step (read_status job_id s) (read_status job_id (step fmul s ev))"
    and c: "dom (JOBS (step fmul s ev)) \<subseteq> dom (JOBS s)"
    by (simp_all add: Burn)
  have "JOBS (step fmul s ev) u = None" if "u \<in> set (upload_ids evs)" for u
  proof -
    from that fresh have "u \<notin> dom (JOBS s)" by auto
    with c have "u \<notin> dom (JOBS (step fmul s ev))" by blast
    then show ?thesis by blast
  qed
  with a b fresh(1) show ?thesis by (simp add: fresh_uploads_def)
next
  case (Status jid)
  with assms show ?thesis by (simp add: fresh_uploads_def status_step_def)
qed

lemma status_trace_hd: "\<exists>rest. status_trace fmul job_id s evs = read_status job_id s # rest"
  by (cases evs) simp_all

lemma status_trace_successively:
  "tasks_burning s \<Longrightarrow> fresh_uploads s evs \<Longrightarrow>
   successively status_step (status_trace fmul job_id s evs)"
proof (induction evs arbitrary: s)
  case Nil
  show ?case by simp
next
  case (Cons ev evs)
  from step_keeps [OF Cons.prems, of fmul job_id]
  have a: "tasks_burning (step fmul s ev)"
    and b: "status_step (read_status job_id s) (read_status job_id (step fmul s ev))"
    and c: "fresh_uploads (step fmul s ev) evs"
    by simp_all
  obtain rest where rest: "status_trace fmul job_id (step fmul s ev) evs =
      read_status job_id (step fmul s ev) # rest"
    using status_trace_hd by blast
  from Cons.IH [OF a c] rest b show ?case
    by simp
qed

text \<open>Lists whose consecutive elements are related by \<open>status_step\<close>.\<close>

lemma terminal_stays:
  assumes "successively status_step (Some t # xs)" and "t = ''done'' \<or> t = ''error''"
  shows "xs = replicate (length xs) (Some t)"
  using assms
proof (induction xs)
  case Nil
  show ?case by simp
next
  case (Cons x xs)
  from Cons.prems have "x = Some t"
    by (auto simp: status_step_def)
  with Cons show ?case by simp
qed

lemma burning_then_terminal:
  assumes "successively status_step (Some ''burning'' # xs)"
  shows "\<exists>b c t. Some ''burning'' # xs =
            replicate (Suc b) (Some ''burning'') @ replicate c (Some t) \<and>
           (t = ''done'' \<or> t = ''error'')"
  using assms
proof (induction xs)
  case Nil
  have "[Some ''burning''] = replicate (Suc 0) (Some ''burning'') @ replicate 0 (Some ''done'')"
    by simp
  then show ?case by blast
next
  case (Cons x xs)
  from Cons.prems have step: "status_step (Some ''burning'') x"
    and rest: "successively status_step (x # xs)"
    by simp_all
  from step consider "x = Some ''burning''" | t where "x = Some t" "t = ''done'' \<or> t = ''error''"
    by (auto simp: status_step_def)
  then show ?case
  proof cases
    case 1
    with Cons.IH rest obtain b c t where
      "Some ''burning'' # xs = replicate (Suc b) (Some ''burning'') @ replicate c (Some t)"
      "t = ''done'' \<or> t = ''error''"
      by blast
    with 1 have "Some ''burning'' # x # xs =
        replicate (Suc (Suc b)) (Some ''burning'') @ replicate c (Some t) \<and>
        (t = ''done'' \<or> t = ''error'')"
      by simp
    then show ?thesis by blast
  next
    case 2
    with rest have "xs = replicate (length xs) (Some t)"
      using terminal_stays by blast
    then have "x # xs = replicate (Suc (length xs)) (Some t)"
      using 2(1) by simp
    then have "Some ''burning'' # x # xs =
        replicate (Suc 0) (Some ''burning'') @ replicate (Suc (length xs)) (Some t)"
      by simp
    with 2(2) show ?thesis by blast
  qed
qed

lemma absent_then_lifecycle:
  assumes "successively status_step (None # xs)"
  shows "lifecycle (None # xs)"
  using assms
proof (induction xs)
  case Nil
  have "[None] = replicate (Suc 0) None @ replicate 0 (Some ''burning'') @ replicate 0 (Some ''done'')"
    by simp
  then show ?case unfolding lifecycle_def by blast
next
  case (Cons x xs)
  from Cons.prems have step: "status_step None x" and rest: "successively status_step (x # xs)"
    by simp_all
  from step consider "x = None" | "x = Some ''burning''"
    by (auto simp: status_step_def)
  then show ?case
  proof cases
    case 1
    with Cons.IH rest obtain a b c t where
      eq: "None # xs = replicate a None @ replicate b (Some ''burning'') @ replicate c (Some t)"
      and t: "t = ''done'' \<or> t = ''error''" and bc: "b = 0 \<longrightarrow> c = 0"
      unfolding lifecycle_def by blast
    from eq 1 have "None # x # xs =
        replicate (Suc a) None @ replicate b (Some ''burning'') @ replicate c (Some t)"
      by simp
    with t bc show ?thesis unfolding lifecycle_def by blast
  next
    case 2
    with rest obtain b c t where
      eq: "x # xs = replicate (Suc b) (Some ''burning'') @ replicate c (Some t)"
      and t: "t = ''done'' \<or> t = ''error''"
      using burning_then_terminal by blast
    from eq have "None # x # xs =
        replicate (Suc 0) None @ replicate (Suc b) (Some ''burning'') @ replicate c (Some t)"
      by simp
    with t show ?thesis unfolding lifecycle_def by blast
  qed
qed

text \<open>
  Claim C5. From the empty registry, under any sequence of uploads, task runs and status
  queries in which the identifiers drawn by the uploads differ from each other (what
  \<open>uuid4\<close> provides), the statuses read for a job, one after each event, follow the
  lifecycle: not found until the job is registered, then \<open>burning\<close>, then at most one
  change, to \<open>done\<close> or to \<open>error\<close>, which is kept ever after; no other value is read.
\<close>

theorem job_status_monotonic:
  assumes "distinct (upload_ids evs)"
  shows "lifecycle (status_trace fmul job_id init_server evs)"
proof -
  have "tasks_burning init_server" "fresh_uploads init_server evs"
    using assms by (simp_all add: tasks_burning_def fresh_uploads_def init_server_def)
  then have "successively status_step (status_trace fmul job_id init_server evs)"
    by (rule status_trace_successively)
  moreover obtain rest where "status_trace fmul job_id init_server evs = None # rest"
    using status_trace_hd [of fmul job_id init_server evs]
    by (auto simp: read_status_eq init_server_def)
  ultimately show ?thesis
    using absent_then_lifecycle by simp
qed

theorem job_status_monotonic_witness:
  "distinct (upload_ids demo_events) \<and>
   status_trace (*) ''j1'' init_server demo_events =
     [None, None, Some ''burning'', Some ''burning'', Some ''error'', Some ''error'', Some ''error''] \<and>
   lifecycle (status_trace (*) ''j1'' init_server demo_events)"
proof -
  have h: "distinct (upload_ids demo_events)"
    by code_simp
  have "status_trace (*) ''j1'' init_server demo_events =
     [None, None, Some ''burning'', Some ''burning'', Some ''error'', Some ''error'', Some ''error'']"
    by code_simp
  with job_status_monotonic [OF h, of "(*)" "''j1''"] h show ?thesis
    by simp
qed




section \<open>Serializing and reading back a subtitle file\<close>

lemma digit_char_cases:
  assumes "d < 10"
  shows "ascii_digit (digit_char d) \<and> digit_val (digit_char d) = d"
proof -
  from assms have "d = 0 \<or> d = 1 \<or> d = 2 \<or> d = 3 \<or> d = 4 \<or> d = 5 \<or> d = 6 \<or>
      d = 7 \<or> d = 8 \<or> d = 9"
    by arith
  then show ?thesis
    by (elim disjE) (simp_all add: digit_char_def digit_val_def ascii_digit_def)
qed

lemma str_nat_digits: "list_all ascii_digit (str_nat n)"
proof (induction n rule: str_nat.induct)
  case (1 n)
  show ?case
  proof (cases "n < 10")
    case True
    then show ?thesis
      using digit_char_cases [of n] by (subst str_nat.simps) simp
  next
    case False
    then show ?thesis
      using 1 digit_char_cases [of "n mod 10"] by (subst str_nat.simps) simp
  qed
qed

lemma str_nat_not_Nil: "str_nat n \<noteq> []"
  by (subst str_nat.simps) simp

text \<open>\<open>str\<close> writes a number in decimal: reading the digits back gives the number.\<close>

lemma str_nat_value: "foldl (\<lambda>acc c. 10 * acc + digit_val c) 0 (str_nat n) = n"
proof (induction n rule: str_nat.induct)
  case (1 n)
  show ?case
  proof (cases "n < 10")
    case True
    then show ?thesis
      using digit_char_cases [of n] by (subst str_nat.simps) simp
  next
    case False
    then show ?thesis
      using 1 digit_char_cases [of "n mod 10"] by (subst str_nat.simps) simp
  qed
qed

lemma parse_nat_str_nat: "parse_nat (str_nat n) = Some n"
  by (simp add: parse_nat_def str_nat_digits str_nat_not_Nil str_nat_value)

lemma timestamp_char_plain: "timestamp_char c \<Longrightarrow> c \<noteq> CHR '' '' \<and> c \<noteq> CHR ''\<newline>''"
  by (auto simp: timestamp_char_def ascii_digit_def)

lemma ascii_digit_plain: "ascii_digit c \<Longrightarrow> c \<noteq> CHR ''\<newline>''"
  by (auto simp: ascii_digit_def)

lemma py_fmt_0d_chars: "list_all timestamp_char (py_fmt_0d w n)"
proof -
  have "list_all timestamp_char (str_nat m)" for m
    using str_nat_digits [of m] by (simp add: list_all_iff timestamp_char_def)
  moreover have "timestamp_char CHR ''0''" "timestamp_char CHR ''-''"
    by (simp_all add: timestamp_char_def ascii_digit_def)
  ultimately show ?thesis
    by (auto simp: py_fmt_0d_def Let_def list_all_iff)
qed

lemma srt_time_chars: "list_all timestamp_char (srt_time fmul x)"
  by (simp add: srt_time_def Let_def py_fmt_0d_chars timestamp_char_def)

lemma srt_time_no_space: "CHR '' '' \<notin> set (srt_time fmul x)"
  using srt_time_chars [of fmul x] timestamp_char_plain by (auto simp: list_all_iff)

lemma srt_time_no_newline: "CHR ''\<newline>'' \<notin> set (srt_time fmul x)"
  using srt_time_chars [of fmul x] timestamp_char_plain by (auto simp: list_all_iff)

lemma str_nat_no_newline: "CHR ''\<newline>'' \<notin> set (str_nat n)"
  using str_nat_digits [of n] ascii_digit_plain by (auto simp: list_all_iff)

lemma takeWhile_upto: "c \<notin> set a \<Longrightarrow> takeWhile (\<lambda>x. x \<noteq> c) (a @ c # b) = a"
  by (induction a) auto

lemma dropWhile_upto: "c \<notin> set a \<Longrightarrow> dropWhile (\<lambda>x. x \<noteq> c) (a @ c # b) = c # b"
  by (induction a) auto

lemma parse_range_arrow:
  assumes "CHR '' '' \<notin> set a"
  shows "parse_range (a @ '' --> '' @ b) = Some (a, b)"
  using assms by (simp add: parse_range_def Let_def takeWhile_upto dropWhile_upto)

lemma py_split_append: "py_split sep (a @ sep # b) = py_split sep a @ py_split sep b"
proof (induction a)
  case Nil
  show ?case by simp
next
  case (Cons c cs)
  obtain w ws where "py_split sep cs = w # ws"
    by (cases "py_split sep cs") auto
  with Cons.IH show ?case by simp
qed

text \<open>The lines of a serialized block followed by the rest of the file.\<close>

lemma srt_block_lines:
  "py_split CHR ''\<newline>'' (srt_block fmul i seg @ r) =
     str_nat i # (srt_time fmul (seg_start seg) @ '' --> '' @ srt_time fmul (seg_end seg)) #
       (py_split CHR ''\<newline>'' (py_strip (seg_text seg)) @ [] # py_split CHR ''\<newline>'' r)"
proof -
  let ?t = "srt_time fmul (seg_start seg) @ '' --> '' @ srt_time fmul (seg_end seg)"
  let ?x = "py_strip (seg_text seg)"
  have t: "CHR ''\<newline>'' \<notin> set ?t"
    using srt_time_no_newline by simp
  have "srt_block fmul i seg @ r =
      str_nat i @ CHR ''\<newline>'' # (?t @ CHR ''\<newline>'' # (?x @ CHR ''\<newline>'' # (CHR ''\<newline>'' # r)))"
    by (simp add: srt_block_def)
  then have "py_split CHR ''\<newline>'' (srt_block fmul i seg @ r) =
      py_split CHR ''\<newline>'' (str_nat i) @ py_split CHR ''\<newline>'' ?t @
        py_split CHR ''\<newline>'' ?x @ py_split CHR ''\<newline>'' (CHR ''\<newline>'' # r)"
    by (simp only: py_split_append)
  then show ?thesis
    using t by (simp add: py_split_no_sep str_nat_no_newline)
qed

lemma parse_blocks_skip_blank: "parse_blocks ([] # ls) = parse_blocks ls"
  by (cases ls) simp_all

lemma parse_blocks_block:
  assumes "l \<noteq> []" and "parse_nat l = Some i" and "parse_range tline = Some (a, b)"
    and "no_blank_line x"
  shows "parse_blocks (l # tline # (py_split CHR ''\<newline>'' x @ [] # ls)) =
     map_option (\<lambda>bs. \<lparr>b_index = i, b_start = a, b_end = b, b_text = x\<rparr> # bs) (parse_blocks ls)"
proof (cases "x = []")
  case True
  then show ?thesis
    using assms(1-3) by (simp add: parse_blocks_skip_blank split: option.splits)
next
  case False
  with assms(4) have nb: "\<forall>y \<in> set (py_split CHR ''\<newline>'' x). y \<noteq> []"
    by (auto simp: no_blank_line_def)
  then have "takeWhile (\<lambda>y. y \<noteq> []) (py_split CHR ''\<newline>'' x @ [] # ls) = py_split CHR ''\<newline>'' x"
    and "dropWhile (\<lambda>y. y \<noteq> []) (py_split CHR ''\<newline>'' x @ [] # ls) = [] # ls"
    by (simp_all add: takeWhile_append2 dropWhile_append2)
  then show ?thesis
    using assms(1-3) py_join_py_split [of "CHR ''\<newline>''" x]
    by (simp add: parse_blocks_skip_blank split: option.splits)
qed

lemma parse_write_blocks:
  assumes "\<forall>seg \<in> set segments. no_blank_line (py_strip (seg_text seg))"
  shows "parse_blocks (py_split CHR ''\<newline>'' (write_blocks fmul i segments)) =
     Some (expected_blocks fmul i segments)"
  using assms
proof (induction segments arbitrary: i)
  case Nil
  show ?case by simp
next
  case (Cons seg segments)
  from Cons.prems have nb: "no_blank_line (py_strip (seg_text seg))"
    by simp
  have range: "parse_range (srt_time fmul (seg_start seg) @ '' --> '' @ srt_time fmul (seg_end seg)) =
      Some (srt_time fmul (seg_start seg), srt_time fmul (seg_end seg))"
    by (rule parse_range_arrow) (rule srt_time_no_space)
  have "parse_blocks (py_split CHR ''\<newline>'' (write_blocks fmul i (seg # segments))) =
      map_option (\<lambda>bs. \<lparr>b_index = i, b_start = srt_time fmul (seg_start seg),
           b_end = srt_time fmul (seg_end seg), b_text = py_strip (seg_text seg)\<rparr> # bs)
        (parse_blocks (py_split CHR ''\<newline>'' (write_blocks fmul (Suc i) segments)))"
    unfolding write_blocks.simps srt_block_lines
    by (rule parse_blocks_block [OF str_nat_not_Nil parse_nat_str_nat range nb])
  with Cons show ?case by simp
qed

lemma length_expected_blocks: "length (expected_blocks fmul i segments) = length segments"
  by (induction segments arbitrary: i) auto

lemma nth_expected_blocks:
  "k < length segments \<Longrightarrow>
   expected_blocks fmul i segments ! k =
     \<lparr>b_index = i + k, b_start = srt_time fmul (seg_start (segments ! k)),
      b_end = srt_time fmul (seg_end (segments ! k)), b_text = py_strip (seg_text (segments ! k))\<rparr>"
proof (induction segments arbitrary: i k)
  case Nil
  then show ?case by simp
next
  case (Cons seg segments)
  then show ?case by (cases k) auto
qed

text \<open>
  Claim C4, as stated, fails: a segment's text is written as it is, and a text with a blank
  line in it ends its block early. The one segment of \<open>smuggled_block\<close> is serialized to the
  very file that the two segments of \<open>two_blocks\<close> are serialized to, so no consumer can
  find the count of the segments in the file; the consumer of the specification finds two
  blocks for the one segment.
\<close>

theorem srt_roundtrip_count_counterexample:
  "write_srt (*) smuggled_block = write_srt (*) two_blocks \<and>
   length smuggled_block = 1 \<and> length two_blocks = 2 \<and>
   map_option length (parse_srt (write_srt (*) smuggled_block)) = Some 2"
  by code_simp

text \<open>
  Claim C4, amended. For every segment list in which no segment's text, once stripped,
  contains a blank line, serializing it and parsing the file back yields one block per
  segment, in the segments' order, numbered from 1, each with the serialized timestamps of
  its segment's start and end (and the segment's stripped text).
\<close>

theorem srt_roundtrip:
  assumes "list_all (\<lambda>seg. no_blank_line (py_strip (seg_text seg))) segments"
  shows "\<exists>blocks. parse_srt (write_srt fmul segments) = Some blocks \<and>
     length blocks = length segments \<and>
     (\<forall>k < length segments.
        b_index (blocks ! k) = k + 1 \<and>
        b_start (blocks ! k) = srt_time fmul (seg_start (segments ! k)) \<and>
        b_end (blocks ! k) = srt_time fmul (seg_end (segments ! k)) \<and>
        b_text (blocks ! k) = py_strip (seg_text (segments ! k)))"
proof -
  from assms have "\<forall>seg \<in> set segments. no_blank_line (py_strip (seg_text seg))"
    by (simp add: list_all_iff)
  then have "parse_srt (write_srt fmul segments) = Some (expected_blocks fmul 1 segments)"
    using parse_write_blocks by (simp add: parse_srt_def write_srt_def)
  then show ?thesis
    by (simp add: length_expected_blocks nth_expected_blocks)
qed

theorem srt_roundtrip_witness:
  "list_all (\<lambda>seg. no_blank_line (py_strip (seg_text seg))) demo_segments \<and>
   parse_srt (write_srt (*) demo_segments) =
     Some [\<lparr>b_index = 1, b_start = ''00:00:00,000'', b_end = ''00:00:01,500'', b_text = ''a''\<rparr>,
           \<lparr>b_index = 2, b_start = ''00:00:02,000'', b_end = ''00:00:03,000'', b_text = ''b''\<rparr>,
           \<lparr>b_index = 3, b_start = ''00:00:04,000'', b_end = ''00:00:05,000'', b_text = ''c''\<rparr>] \<and>
   (\<exists>blocks. parse_srt (write_srt (*) demo_segments) = Some blocks \<and>
     length blocks = length demo_segments \<and>
     (\<forall>k < length demo_segments.
        b_index (blocks ! k) = k + 1 \<and>
        b_start (blocks ! k) = srt_time (*) (seg_start (demo_segments ! k)) \<and>
        b_end (blocks ! k) = srt_time (*) (seg_end (demo_segments ! k)) \<and>
        b_text (blocks ! k) = py_strip (seg_text (demo_segments ! k))))"
proof -
  have h: "list_all (\<lambda>seg. no_blank_line (py_strip (seg_text seg))) demo_segments"
    by code_simp
  have "parse_srt (write_srt (*) demo_segments) =
     Some [\<lparr>b_index = 1, b_start = ''00:00:00,000'', b_end = ''00:00:01,500'', b_text = ''a''\<rparr>,
           \<lparr>b_index = 2, b_start = ''00:00:02,000'', b_end = ''00:00:03,000'', b_text = ''b''\<rparr>,
           \<lparr>b_index = 3, b_start = ''00:00:04,000'', b_end = ''00:00:05,000'', b_text = ''c''\<rparr>]"
    by code_simp
  with srt_roundtrip [OF h, of "(*)"] h show ?thesis
    by blast
qed

end
